theory Spec2Isabelle
  imports Main "HOL-Library.Sublist"
begin

section \<open>Go library functions used by the package\<close>

text \<open>
  Go strings are byte sequences; \<open>len\<close> counts bytes and \<open>raw[i]\<close> reads one byte.
  They are modelled as \<^typ>\<open>string\<close>, a list of 8-bit characters.
\<close>

datatype error = IndexOutOfRange | NegativeRepeat

text \<open>\<open>strings.Join(elems, sep)\<close>.\<close>

fun Join :: "string list \<Rightarrow> string \<Rightarrow> string" where
  "Join [] sep = []"
| "Join [x] sep = x"
| "Join (x # y # ys) sep = x @ sep @ Join (y # ys) sep"

text \<open>
  \<open>strings.Repeat(s, count)\<close> panics when \<open>count\<close> is negative. (Its second panic, on
  overflow of \<open>len(s) * count\<close>, needs a count beyond the length of any string held in
  memory and is left out; \<open>indent\<close> is a Go \<open>int\<close>, modelled as \<^typ>\<open>int\<close>.)
\<close>

definition Repeat :: "string \<Rightarrow> int \<Rightarrow> error + string" where
  "Repeat s count =
     (if count < 0 then Inl NegativeRepeat else Inr (concat (replicate (nat count) s)))"

text \<open>\<open>raw[i]\<close> on a Go string panics when \<open>i\<close> is out of range.\<close>

definition index :: "string \<Rightarrow> nat \<Rightarrow> error + char" where
  "index raw i = (if i < length raw then Inr (raw ! i) else Inl IndexOutOfRange)"

section \<open>Data model\<close>

text \<open>
  The builders hold their children by pointer and every \<open>With...\<close> method mutates its
  receiver and returns it. The entities are modelled as values (every pointer non-nil,
  no sharing), a \<open>With...\<close> method as a function from the receiver to the updated
  receiver. Field names carry the receiver name used in the source as a prefix.
\<close>

datatype Attribute =
  Attribute (a_Alias: string) (a_Name: string) (a_Directives: "string list")
    (a_Attributes: "Attribute list")

record Param =
  p_Name :: string
  p_Type :: string
  p_Default :: string

record Fragment =
  f_Name :: string
  f_Attributes :: "Attribute list"

record VarBlock =
  vb_Name :: string
  vb_Criteria :: string
  vb_Attributes :: "Attribute list"
  vb_Directives :: "string list"

record QueryBlock =
  qb_Name :: string
  qb_Criteria :: "string list"
  qb_Directives :: "string list"
  qb_Attributes :: "Attribute list"

record Query =
  q_Name :: string
  q_Params :: "Param list"
  q_QueryBlocks :: "QueryBlock list"
  q_VarBlocks :: "VarBlock list"
  q_Fragments :: "Fragment list"

section \<open>Attribute\<close>

definition NewAttribute :: "string \<Rightarrow> Attribute" where
  "NewAttribute name = Attribute [] name [] []"

text \<open>The loop \<open>for _, x := range xs { field = append(field, x) }\<close> of every builder.\<close>

definition append_each :: "'a list \<Rightarrow> 'a list \<Rightarrow> 'a list" where
  "append_each field xs = foldl (\<lambda>acc x. acc @ [x]) field xs"

fun Attribute_WithDirectives :: "Attribute \<Rightarrow> string list \<Rightarrow> Attribute" where
  "Attribute_WithDirectives (Attribute al n ds as) directives =
     Attribute al n (append_each ds directives) as"

fun Attribute_WithAttributes :: "Attribute \<Rightarrow> Attribute list \<Rightarrow> Attribute" where
  "Attribute_WithAttributes (Attribute al n ds as) attributes =
     Attribute al n ds (append_each as attributes)"

fun Attribute_String :: "Attribute \<Rightarrow> string" where
  "Attribute_String (Attribute al n ds as) =
     (let components = [];
          components = (if al \<noteq> [] then components @ [al, '':''] else components);
          components = components @ [n];
          components = foldl (\<lambda>cs f. cs @ [f]) components ds;
          components =
            (if length as \<noteq> 0 then
               (let components = components @ [''{''];
                    components = foldl (\<lambda>cs attr. cs @ [Attribute_String attr]) components as
                in components @ [''}''])
             else components)
      in Join components '' '')"

section \<open>Param\<close>

definition NewParam :: "string \<Rightarrow> string \<Rightarrow> Param" where
  "NewParam n t = \<lparr>p_Name = n, p_Type = t, p_Default = []\<rparr>"

definition Param_WithDefault :: "Param \<Rightarrow> string \<Rightarrow> Param" where
  "Param_WithDefault p val = p\<lparr>p_Default := val\<rparr>"

definition Param_String :: "Param \<Rightarrow> string" where
  "Param_String p =
     (let res = p_Name p @ '': '' @ p_Type p
      in if p_Default p \<noteq> [] then res @ '' = '' @ p_Default p else res)"

section \<open>Fragment\<close>

definition NewFragment :: "string \<Rightarrow> Fragment" where
  "NewFragment name = \<lparr>f_Name = name, f_Attributes = []\<rparr>"

definition Fragment_WithAttributes :: "Fragment \<Rightarrow> Attribute list \<Rightarrow> Fragment" where
  "Fragment_WithAttributes f attrs = f\<lparr>f_Attributes := append_each (f_Attributes f) attrs\<rparr>"

definition Fragment_String :: "Fragment \<Rightarrow> string" where
  "Fragment_String f =
     (let components = [''fragment'', f_Name f];
          components = components @ [''{''];
          components = foldl (\<lambda>cs attr. cs @ [Attribute_String attr]) components (f_Attributes f);
          components = components @ [''}'']
      in Join components '' '')"

section \<open>VarBlock\<close>

definition NewVarBlock :: "string \<Rightarrow> VarBlock" where
  "NewVarBlock criteria =
     \<lparr>vb_Name = [], vb_Criteria = criteria, vb_Attributes = [], vb_Directives = []\<rparr>"

definition VarBlock_WithName :: "VarBlock \<Rightarrow> string \<Rightarrow> VarBlock" where
  "VarBlock_WithName vb name = vb\<lparr>vb_Name := name\<rparr>"

definition VarBlock_WithDirectives :: "VarBlock \<Rightarrow> string list \<Rightarrow> VarBlock" where
  "VarBlock_WithDirectives vb directives =
     vb\<lparr>vb_Directives := append_each (vb_Directives vb) directives\<rparr>"

definition VarBlock_WithAttributes :: "VarBlock \<Rightarrow> Attribute list \<Rightarrow> VarBlock" where
  "VarBlock_WithAttributes vb attrs =
     vb\<lparr>vb_Attributes := append_each (vb_Attributes vb) attrs\<rparr>"

definition VarBlock_String :: "VarBlock \<Rightarrow> string" where
  "VarBlock_String vb =
     (let components = [];
          components = (if vb_Name vb \<noteq> [] then components @ [vb_Name vb, ''AS''] else components);
          components = components @ [''var'', ''(func: '' @ vb_Criteria vb @ '')''];
          components = foldl (\<lambda>cs f. cs @ [f]) components (vb_Directives vb);
          components = components @ [''{''];
          components = foldl (\<lambda>cs attr. cs @ [Attribute_String attr]) components (vb_Attributes vb);
          components = components @ [''}'']
      in Join components '' '')"

section \<open>QueryBlock\<close>

definition NewQueryBlock :: "string \<Rightarrow> string \<Rightarrow> QueryBlock" where
  "NewQueryBlock name criteria =
     \<lparr>qb_Name = name, qb_Criteria = [criteria], qb_Directives = [], qb_Attributes = []\<rparr>"

definition QueryBlock_WithCriteria :: "QueryBlock \<Rightarrow> string list \<Rightarrow> QueryBlock" where
  "QueryBlock_WithCriteria qb criteria =
     qb\<lparr>qb_Criteria := append_each (qb_Criteria qb) criteria\<rparr>"

definition QueryBlock_WithDirectives :: "QueryBlock \<Rightarrow> string list \<Rightarrow> QueryBlock" where
  "QueryBlock_WithDirectives qb directives =
     qb\<lparr>qb_Directives := append_each (qb_Directives qb) directives\<rparr>"

definition QueryBlock_WithAttributes :: "QueryBlock \<Rightarrow> Attribute list \<Rightarrow> QueryBlock" where
  "QueryBlock_WithAttributes qb attrs =
     qb\<lparr>qb_Attributes := append_each (qb_Attributes qb) attrs\<rparr>"

definition QueryBlock_String :: "QueryBlock \<Rightarrow> string" where
  "QueryBlock_String qb =
     (let components = [qb_Name qb, ''(func: '' @ Join (qb_Criteria qb) '', '' @ '')''];
          components = foldl (\<lambda>cs f. cs @ [f]) components (qb_Directives qb);
          components = components @ [''{''];
          components = foldl (\<lambda>cs attr. cs @ [Attribute_String attr]) components (qb_Attributes qb);
          components = components @ [''}'']
      in Join components '' '')"

section \<open>Query\<close>

definition NewQuery :: "string \<Rightarrow> QueryBlock \<Rightarrow> Query" where
  "NewQuery name queryBlock =
     \<lparr>q_Name = name, q_Params = [], q_QueryBlocks = [queryBlock], q_VarBlocks = [],
      q_Fragments = []\<rparr>"

definition Query_WithParam :: "Query \<Rightarrow> Param list \<Rightarrow> Query" where
  "Query_WithParam q params = q\<lparr>q_Params := append_each (q_Params q) params\<rparr>"

definition Query_WithVarBlocks :: "Query \<Rightarrow> VarBlock list \<Rightarrow> Query" where
  "Query_WithVarBlocks q vbs = q\<lparr>q_VarBlocks := append_each (q_VarBlocks q) vbs\<rparr>"

definition Query_WithQueryBlocks :: "Query \<Rightarrow> QueryBlock list \<Rightarrow> Query" where
  "Query_WithQueryBlocks q qbs = q\<lparr>q_QueryBlocks := append_each (q_QueryBlocks q) qbs\<rparr>"

definition Query_WithFragments :: "Query \<Rightarrow> Fragment list \<Rightarrow> Query" where
  "Query_WithFragments q fragments = q\<lparr>q_Fragments := append_each (q_Fragments q) fragments\<rparr>"

definition Query_concatenate :: "Query \<Rightarrow> string list" where
  "Query_concatenate q =
     (let components = [];
          components = (if q_Name q \<noteq> [] then components @ [''query'', q_Name q] else components);
          components =
            (if length (q_Params q) \<noteq> 0 then
               (let components = components @ [''(''];
                    paramComps = map Param_String (q_Params q);
                    components = components @ [Join paramComps '', '']
                in components @ ['')''])
             else components);
          components = components @ [''{''];
          components = foldl (\<lambda>cs vBlock. cs @ [VarBlock_String vBlock]) components (q_VarBlocks q);
          components = foldl (\<lambda>cs qBlock. cs @ [QueryBlock_String qBlock]) components (q_QueryBlocks q);
          components = components @ [''}''];
          components = foldl (\<lambda>cs f. cs @ [Fragment_String f]) components (q_Fragments q)
      in components)"

definition Query_String :: "Query \<Rightarrow> string" where
  "Query_String q = (let components = Query_concatenate q in Join components '' '')"

subsection \<open>PrettyPrint\<close>

text \<open>
  The state of the scan: the cursor \<open>i\<close> (it starts at 0 and only grows, so a natural
  number), the depth counter \<open>indent\<close> (a signed Go \<open>int\<close>) and the text built so far.
\<close>

record pp_state =
  pp_i :: nat
  pp_indent :: int
  pp_result :: string

definition step :: string where
  "step = ''  ''"

text \<open>
  One iteration of the \<open>for\<close> loop at a cursor inside the text: the \<open>switch\<close> on the
  current byte followed by the loop's \<open>i++\<close>. A panic of \<open>strings.Repeat\<close> or of the
  lookahead \<open>raw[i+2]\<close> ends the iteration with the error.
\<close>

definition PrettyPrint_step :: "string \<Rightarrow> pp_state \<Rightarrow> error + pp_state" where
  "PrettyPrint_step raw s =
     (let i = pp_i s; char = raw ! i in
      if char = CHR ''{'' then
        (let result = pp_result s @ [char] @ [CHR 0x0A];
             indent = pp_indent s + 1
         in case Repeat step indent of
              Inl e \<Rightarrow> Inl e
            | Inr sp \<Rightarrow> Inr \<lparr>pp_i = (i + 1) + 1, pp_indent = indent, pp_result = result @ sp\<rparr>)
      else if char = CHR ''}'' then
        (let result = pp_result s @ [CHR 0x0A];
             indent = pp_indent s - 1
         in case Repeat step indent of
              Inl e \<Rightarrow> Inl e
            | Inr sp \<Rightarrow>
                (let result = result @ sp @ [char]
                 in case (if int i < int (length raw) - 1 then
                            (case index raw (i + 2) of
                               Inl e \<Rightarrow> Inl e
                             | Inr peak \<Rightarrow>
                                 Inr (if peak \<noteq> CHR ''}'' then result @ [CHR 0x0A] else result))
                          else Inr result) of
                      Inl e \<Rightarrow> Inl e
                    | Inr result \<Rightarrow>
                        (case Repeat step indent of
                           Inl e \<Rightarrow> Inl e
                         | Inr sp2 \<Rightarrow>
                             Inr \<lparr>pp_i = (i + 1) + 1, pp_indent = indent,
                                  pp_result = result @ sp2\<rparr>)))
      else Inr \<lparr>pp_i = i + 1, pp_indent = pp_indent s, pp_result = pp_result s @ [char]\<rparr>)"

function PrettyPrint_loop :: "string \<Rightarrow> pp_state \<Rightarrow> error + string" where
  "PrettyPrint_loop raw s =
     (if pp_i s < length raw then
        (case PrettyPrint_step raw s of
           Inl e \<Rightarrow> Inl e
         | Inr s' \<Rightarrow> PrettyPrint_loop raw s')
      else Inr (pp_result s))"
  by pat_completeness auto
termination
proof (relation "measure (\<lambda>(raw, s). length raw - pp_i s)")
  show "wf (measure (\<lambda>(raw, s). length raw - pp_i s))" by simp
next
  fix raw :: string and s s' :: pp_state
  assume inside: "pp_i s < length raw" and stepped: "PrettyPrint_step raw s = Inr s'"
  from stepped have "pp_i s < pp_i s'"
    by (auto simp: PrettyPrint_step_def Let_def split: if_splits sum.splits)
  with inside show "((raw, s'), (raw, s)) \<in> measure (\<lambda>(raw, s). length raw - pp_i s)"
    by simp
qed

declare PrettyPrint_loop.simps [simp del]

definition Query_PrettyPrint :: "Query \<Rightarrow> error + string" where
  "Query_PrettyPrint q =
     (let raw = Query_String q
      in PrettyPrint_loop raw \<lparr>pp_i = 0, pp_indent = 0, pp_result = []\<rparr>)"

section \<open>The renders on a store of objects\<close>

text \<open>
  The entities hold one another by pointer, so what a method may write to is the store
  of objects behind those pointers. Here the store is explicit: one map per struct type
  from addresses to objects, an object holding the addresses of its children. A nil or
  dangling pointer is an address outside the map.
\<close>

type_synonym addr = nat

record AttributeObj =
  Attribute_Alias :: string
  Attribute_Name :: string
  Attribute_Directives :: "string list"
  Attribute_Attributes :: "addr list"

record FragmentObj =
  Fragment_Name :: string
  Fragment_Attributes :: "addr list"

record VarBlockObj =
  VarBlock_Name :: string
  VarBlock_Criteria :: string
  VarBlock_Attributes :: "addr list"
  VarBlock_Directives :: "string list"

record QueryBlockObj =
  QueryBlock_Name :: string
  QueryBlock_Criteria :: "string list"
  QueryBlock_Directives :: "string list"
  QueryBlock_Attributes :: "addr list"

record QueryObj =
  Query_Name :: string
  Query_Params :: "addr list"
  Query_QueryBlocks :: "addr list"
  Query_VarBlocks :: "addr list"
  Query_Fragments :: "addr list"

record heap =
  Attribute_at :: "addr \<rightharpoonup> AttributeObj"
  Param_at :: "addr \<rightharpoonup> Param"
  Fragment_at :: "addr \<rightharpoonup> FragmentObj"
  VarBlock_at :: "addr \<rightharpoonup> VarBlockObj"
  QueryBlock_at :: "addr \<rightharpoonup> QueryBlockObj"
  Query_at :: "addr \<rightharpoonup> QueryObj"

text \<open>
  A method run on the store returns its outcome and the store as it leaves it. Besides
  returning, a run can panic (in \<open>strings.Repeat\<close> or an index), dereference nil, or,
  on a cyclic chain of attributes, recurse without end; the recursion of
  \<open>Attribute.String\<close> is therefore bounded by a fuel argument.
\<close>

datatype 'a outcome = Return 'a | Panic error | NilDereference | OutOfFuel

type_synonym 'a prog = "heap \<Rightarrow> 'a outcome \<times> heap"

definition ret :: "'a \<Rightarrow> 'a prog" where
  "ret x h = (Return x, h)"

definition bnd :: "'a prog \<Rightarrow> ('a \<Rightarrow> 'b prog) \<Rightarrow> 'b prog" where
  "bnd m f h =
     (case m h of
        (Return x, h') \<Rightarrow> f x h'
      | (Panic e, h') \<Rightarrow> (Panic e, h')
      | (NilDereference, h') \<Rightarrow> (NilDereference, h')
      | (OutOfFuel, h') \<Rightarrow> (OutOfFuel, h'))"

text \<open>Reading the field \<open>p.field\<close> through the pointer \<open>p\<close>.\<close>

definition deref :: "(heap \<Rightarrow> addr \<rightharpoonup> 'o) \<Rightarrow> addr \<Rightarrow> ('o \<Rightarrow> 'v) \<Rightarrow> 'v prog" where
  "deref objects p field h =
     (case objects h p of None \<Rightarrow> (NilDereference, h) | Some obj \<Rightarrow> (Return (field obj), h))"

text \<open>Assigning through the pointer \<open>p\<close>, as the builders do.\<close>

definition store_Query :: "addr \<Rightarrow> QueryObj \<Rightarrow> unit prog" where
  "store_Query p obj h =
     (case Query_at h p of
        None \<Rightarrow> (NilDereference, h)
      | Some _ \<Rightarrow> (Return (), h\<lparr>Query_at := (Query_at h)(p \<mapsto> obj)\<rparr>))"

text \<open>The loop \<open>for _, x := range xs\<close> over a body that updates a local value.\<close>

fun for_range :: "'a list \<Rightarrow> 'b \<Rightarrow> ('b \<Rightarrow> 'a \<Rightarrow> 'b prog) \<Rightarrow> 'b prog" where
  "for_range [] acc body = ret acc"
| "for_range (x # xs) acc body = bnd (body acc x) (\<lambda>acc'. for_range xs acc' body)"

text \<open>
  The \<open>String\<close> methods, statement by statement; every read of a field of the receiver
  goes through the store at the point where the source reads it. The slices
  \<open>components\<close> and \<open>paramComps\<close> are locals made by the method itself.
\<close>

fun Attribute_String_h :: "nat \<Rightarrow> addr \<Rightarrow> string prog" where
  "Attribute_String_h 0 a = (\<lambda>h. (OutOfFuel, h))"
| "Attribute_String_h (Suc fuel) a =
     (let components = [] in
      bnd (deref Attribute_at a Attribute_Alias) (\<lambda>alias.
      bnd (if alias \<noteq> [] then
             bnd (deref Attribute_at a Attribute_Alias) (\<lambda>alias. ret (components @ [alias, '':'']))
           else ret components) (\<lambda>components.
      bnd (deref Attribute_at a Attribute_Name) (\<lambda>name.
      let components = components @ [name] in
      bnd (deref Attribute_at a Attribute_Directives) (\<lambda>directives.
      bnd (for_range directives components (\<lambda>cs f. ret (cs @ [f]))) (\<lambda>components.
      bnd (deref Attribute_at a Attribute_Attributes) (\<lambda>attributes.
      bnd (if length attributes \<noteq> 0 then
             (let components = components @ [''{''] in
              bnd (deref Attribute_at a Attribute_Attributes) (\<lambda>attributes.
              bnd (for_range attributes components
                    (\<lambda>cs attr. bnd (Attribute_String_h fuel attr) (\<lambda>s. ret (cs @ [s]))))
                (\<lambda>components. ret (components @ [''}'']))))
           else ret components) (\<lambda>components.
      ret (Join components '' '')))))))))"


definition Param_String_h :: "addr \<Rightarrow> string prog" where
  "Param_String_h p =
     bnd (deref Param_at p p_Name) (\<lambda>n.
     bnd (deref Param_at p p_Type) (\<lambda>t.
     let res = n @ '': '' @ t in
     bnd (deref Param_at p p_Default) (\<lambda>d.
     if d \<noteq> [] then bnd (deref Param_at p p_Default) (\<lambda>d. ret (res @ '' = '' @ d))
     else ret res)))"

definition Fragment_String_h :: "nat \<Rightarrow> addr \<Rightarrow> string prog" where
  "Fragment_String_h fuel f =
     bnd (deref Fragment_at f Fragment_Name) (\<lambda>name.
     let components = [''fragment'', name];
         components = components @ [''{''] in
     bnd (deref Fragment_at f Fragment_Attributes) (\<lambda>attributes.
     bnd (for_range attributes components
           (\<lambda>cs attr. bnd (Attribute_String_h fuel attr) (\<lambda>s. ret (cs @ [s])))) (\<lambda>components.
     let components = components @ [''}''] in
     ret (Join components '' ''))))"

definition VarBlock_String_h :: "nat \<Rightarrow> addr \<Rightarrow> string prog" where
  "VarBlock_String_h fuel vb =
     (let components = [] in
      bnd (deref VarBlock_at vb VarBlock_Name) (\<lambda>name.
      bnd (if name \<noteq> [] then
             bnd (deref VarBlock_at vb VarBlock_Name) (\<lambda>name. ret (components @ [name, ''AS'']))
           else ret components) (\<lambda>components.
      bnd (deref VarBlock_at vb VarBlock_Criteria) (\<lambda>criteria.
      let components = components @ [''var'', ''(func: '' @ criteria @ '')''] in
      bnd (deref VarBlock_at vb VarBlock_Directives) (\<lambda>directives.
      bnd (for_range directives components (\<lambda>cs f. ret (cs @ [f]))) (\<lambda>components.
      let components = components @ [''{''] in
      bnd (deref VarBlock_at vb VarBlock_Attributes) (\<lambda>attributes.
      bnd (for_range attributes components
            (\<lambda>cs attr. bnd (Attribute_String_h fuel attr) (\<lambda>s. ret (cs @ [s])))) (\<lambda>components.
      let components = components @ [''}''] in
      ret (Join components '' '')))))))))"

definition QueryBlock_String_h :: "nat \<Rightarrow> addr \<Rightarrow> string prog" where
  "QueryBlock_String_h fuel qb =
     bnd (deref QueryBlock_at qb QueryBlock_Name) (\<lambda>name.
     bnd (deref QueryBlock_at qb QueryBlock_Criteria) (\<lambda>criteria.
     let components = [name, ''(func: '' @ Join criteria '', '' @ '')''] in
     bnd (deref QueryBlock_at qb QueryBlock_Directives) (\<lambda>directives.
     bnd (for_range directives components (\<lambda>cs f. ret (cs @ [f]))) (\<lambda>components.
     let components = components @ [''{''] in
     bnd (deref QueryBlock_at qb QueryBlock_Attributes) (\<lambda>attributes.
     bnd (for_range attributes components
           (\<lambda>cs attr. bnd (Attribute_String_h fuel attr) (\<lambda>s. ret (cs @ [s])))) (\<lambda>components.
     let components = components @ [''}''] in
     ret (Join components '' '')))))))"

text \<open>
  \<open>String\<close> and \<open>PrettyPrint\<close> have a value receiver: they work on a copy \<open>q\<close> of the
  \<open>Query\<close> struct, whose slices still hold the addresses of the owned objects.
  \<open>paramComps[i] = param.String()\<close> fills the local slice from left to right.
\<close>

definition Query_concatenate_h :: "nat \<Rightarrow> QueryObj \<Rightarrow> string list prog" where
  "Query_concatenate_h fuel q =
     (let components = [];
          components = (if Query_Name q \<noteq> [] then components @ [''query'', Query_Name q]
                        else components) in
      bnd (if length (Query_Params q) \<noteq> 0 then
             (let components = components @ [''(''] in
              bnd (for_range (Query_Params q) []
                    (\<lambda>paramComps param. bnd (Param_String_h param) (\<lambda>s. ret (paramComps @ [s]))))
                (\<lambda>paramComps.
              let components = components @ [Join paramComps '', ''] in
              ret (components @ ['')''])))
           else ret components) (\<lambda>components.
      let components = components @ [''{''] in
      bnd (for_range (Query_VarBlocks q) components
            (\<lambda>cs vBlock. bnd (VarBlock_String_h fuel vBlock) (\<lambda>s. ret (cs @ [s])))) (\<lambda>components.
      bnd (for_range (Query_QueryBlocks q) components
            (\<lambda>cs qBlock. bnd (QueryBlock_String_h fuel qBlock) (\<lambda>s. ret (cs @ [s])))) (\<lambda>components.
      let components = components @ [''}''] in
      bnd (for_range (Query_Fragments q) components
            (\<lambda>cs f. bnd (Fragment_String_h fuel f) (\<lambda>s. ret (cs @ [s])))) (\<lambda>components.
      ret components)))))"

definition Query_String_h :: "nat \<Rightarrow> QueryObj \<Rightarrow> string prog" where
  "Query_String_h fuel q =
     bnd (Query_concatenate_h fuel q) (\<lambda>components. ret (Join components '' ''))"

definition of_result :: "error + 'a \<Rightarrow> 'a prog" where
  "of_result r h = (case r of Inl e \<Rightarrow> (Panic e, h) | Inr x \<Rightarrow> (Return x, h))"

definition Query_PrettyPrint_h :: "nat \<Rightarrow> QueryObj \<Rightarrow> string prog" where
  "Query_PrettyPrint_h fuel q =
     bnd (Query_String_h fuel q) (\<lambda>raw.
     of_result (PrettyPrint_loop raw \<lparr>pp_i = 0, pp_indent = 0, pp_result = []\<rparr>))"

text \<open>The calls \<open>query.String()\<close> and \<open>query.PrettyPrint()\<close> on a \<open>*Query\<close>.\<close>

definition call_String :: "nat \<Rightarrow> addr \<Rightarrow> string prog" where
  "call_String fuel query = bnd (deref Query_at query (\<lambda>q. q)) (Query_String_h fuel)"

definition call_PrettyPrint :: "nat \<Rightarrow> addr \<Rightarrow> string prog" where
  "call_PrettyPrint fuel query = bnd (deref Query_at query (\<lambda>q. q)) (Query_PrettyPrint_h fuel)"

text \<open>A builder on the store, for contrast: each round of its loop assigns to a field.\<close>

definition Query_WithQueryBlocks_h :: "addr \<Rightarrow> addr list \<Rightarrow> addr prog" where
  "Query_WithQueryBlocks_h q qbs =
     bnd (for_range qbs ()
           (\<lambda>_ qb. bnd (deref Query_at q (\<lambda>obj. obj)) (\<lambda>obj.
                    store_Query q (obj\<lparr>Query_QueryBlocks := Query_QueryBlocks obj @ [qb]\<rparr>))))
       (\<lambda>_. ret q)"

text \<open>A run that leaves every store as it found it.\<close>

definition unchanged :: "'a prog \<Rightarrow> bool" where
  "unchanged m = (\<forall>h. snd (m h) = h)"

subsection \<open>The tree behind an address\<close>

text \<open>
  The value an address stands for, read off the store down to the given depth; \<open>None\<close>
  when a pointer is nil or the chain of children is longer than the depth.
\<close>

fun Attribute_value :: "nat \<Rightarrow> heap \<Rightarrow> addr \<Rightarrow> Attribute option" where
  "Attribute_value 0 h a = None"
| "Attribute_value (Suc fuel) h a =
     (case Attribute_at h a of
        None \<Rightarrow> None
      | Some obj \<Rightarrow>
          (case those (map (Attribute_value fuel h) (Attribute_Attributes obj)) of
             None \<Rightarrow> None
           | Some as \<Rightarrow>
               Some (Attribute (Attribute_Alias obj) (Attribute_Name obj)
                 (Attribute_Directives obj) as)))"

definition Fragment_value :: "nat \<Rightarrow> heap \<Rightarrow> addr \<Rightarrow> Fragment option" where
  "Fragment_value fuel h f =
     (case Fragment_at h f of
        None \<Rightarrow> None
      | Some obj \<Rightarrow>
          (case those (map (Attribute_value fuel h) (Fragment_Attributes obj)) of
             None \<Rightarrow> None
           | Some as \<Rightarrow> Some \<lparr>f_Name = Fragment_Name obj, f_Attributes = as\<rparr>))"

definition VarBlock_value :: "nat \<Rightarrow> heap \<Rightarrow> addr \<Rightarrow> VarBlock option" where
  "VarBlock_value fuel h vb =
     (case VarBlock_at h vb of
        None \<Rightarrow> None
      | Some obj \<Rightarrow>
          (case those (map (Attribute_value fuel h) (VarBlock_Attributes obj)) of
             None \<Rightarrow> None
           | Some as \<Rightarrow>
               Some \<lparr>vb_Name = VarBlock_Name obj, vb_Criteria = VarBlock_Criteria obj,
                     vb_Attributes = as, vb_Directives = VarBlock_Directives obj\<rparr>))"

definition QueryBlock_value :: "nat \<Rightarrow> heap \<Rightarrow> addr \<Rightarrow> QueryBlock option" where
  "QueryBlock_value fuel h qb =
     (case QueryBlock_at h qb of
        None \<Rightarrow> None
      | Some obj \<Rightarrow>
          (case those (map (Attribute_value fuel h) (QueryBlock_Attributes obj)) of
             None \<Rightarrow> None
           | Some as \<Rightarrow>
               Some \<lparr>qb_Name = QueryBlock_Name obj, qb_Criteria = QueryBlock_Criteria obj,
                     qb_Directives = QueryBlock_Directives obj, qb_Attributes = as\<rparr>))"

definition Query_value :: "nat \<Rightarrow> heap \<Rightarrow> QueryObj \<Rightarrow> Query option" where
  "Query_value fuel h q =
     (case those (map (Param_at h) (Query_Params q)) of
        None \<Rightarrow> None
      | Some ps \<Rightarrow>
     (case those (map (QueryBlock_value fuel h) (Query_QueryBlocks q)) of
        None \<Rightarrow> None
      | Some qbs \<Rightarrow>
     (case those (map (VarBlock_value fuel h) (Query_VarBlocks q)) of
        None \<Rightarrow> None
      | Some vbs \<Rightarrow>
     (case those (map (Fragment_value fuel h) (Query_Fragments q)) of
        None \<Rightarrow> None
      | Some fs \<Rightarrow>
          Some \<lparr>q_Name = Query_Name q, q_Params = ps, q_QueryBlocks = qbs, q_VarBlocks = vbs,
                q_Fragments = fs\<rparr>))))"

text \<open>
  A store holding the query of the README: two attributes, the query block
  \<open>getUser\<close> over them, a second query block not yet attached, and the query.
\<close>

definition example_heap :: heap where
  "example_heap =
     \<lparr>Attribute_at =
        [1 \<mapsto> \<lparr>Attribute_Alias = [], Attribute_Name = ''name'', Attribute_Directives = [],
                 Attribute_Attributes = []\<rparr>,
         2 \<mapsto> \<lparr>Attribute_Alias = [], Attribute_Name = ''age'', Attribute_Directives = [],
                 Attribute_Attributes = []\<rparr>],
      Param_at = Map.empty,
      Fragment_at = Map.empty,
      VarBlock_at = Map.empty,
      QueryBlock_at =
        [3 \<mapsto> \<lparr>QueryBlock_Name = ''getUser'', QueryBlock_Criteria = [''has(user)''],
                 QueryBlock_Directives = [], QueryBlock_Attributes = [1, 2]\<rparr>,
         5 \<mapsto> \<lparr>QueryBlock_Name = ''getPosts'', QueryBlock_Criteria = [''has(post)''],
                 QueryBlock_Directives = [], QueryBlock_Attributes = []\<rparr>],
      Query_at =
        [4 \<mapsto> \<lparr>Query_Name = ''GetUserQuery'', Query_Params = [], Query_QueryBlocks = [3],
                 Query_VarBlocks = [], Query_Fragments = []\<rparr>]\<rparr>"

section \<open>Sequences of builder calls\<close>

text \<open>
  A chain \<open>NewQueryBlock(n, c).With...(...).With...(...)\<close> is the constructor followed by
  a list of calls, each with its variadic arguments; likewise for \<open>NewQuery\<close>.
\<close>

datatype QueryBlock_call =
  WithCriteria "string list"
| WithDirectives "string list"
| WithAttributes "Attribute list"

fun QueryBlock_do :: "QueryBlock \<Rightarrow> QueryBlock_call \<Rightarrow> QueryBlock" where
  "QueryBlock_do qb (WithCriteria criteria) = QueryBlock_WithCriteria qb criteria"
| "QueryBlock_do qb (WithDirectives directives) = QueryBlock_WithDirectives qb directives"
| "QueryBlock_do qb (WithAttributes attrs) = QueryBlock_WithAttributes qb attrs"

fun added_Criteria :: "QueryBlock_call list \<Rightarrow> string list" where
  "added_Criteria [] = []"
| "added_Criteria (WithCriteria criteria # calls) = criteria @ added_Criteria calls"
| "added_Criteria (_ # calls) = added_Criteria calls"

fun added_Directives :: "QueryBlock_call list \<Rightarrow> string list" where
  "added_Directives [] = []"
| "added_Directives (WithDirectives directives # calls) = directives @ added_Directives calls"
| "added_Directives (_ # calls) = added_Directives calls"

fun added_Attributes :: "QueryBlock_call list \<Rightarrow> Attribute list" where
  "added_Attributes [] = []"
| "added_Attributes (WithAttributes attrs # calls) = attrs @ added_Attributes calls"
| "added_Attributes (_ # calls) = added_Attributes calls"

datatype Query_call =
  WithParam "Param list"
| WithVarBlocks "VarBlock list"
| WithQueryBlocks "QueryBlock list"
| WithFragments "Fragment list"

fun Query_do :: "Query \<Rightarrow> Query_call \<Rightarrow> Query" where
  "Query_do q (WithParam params) = Query_WithParam q params"
| "Query_do q (WithVarBlocks vbs) = Query_WithVarBlocks q vbs"
| "Query_do q (WithQueryBlocks qbs) = Query_WithQueryBlocks q qbs"
| "Query_do q (WithFragments fragments) = Query_WithFragments q fragments"

fun added_QueryBlocks :: "Query_call list \<Rightarrow> QueryBlock list" where
  "added_QueryBlocks [] = []"
| "added_QueryBlocks (WithQueryBlocks qbs # calls) = qbs @ added_QueryBlocks calls"
| "added_QueryBlocks (_ # calls) = added_QueryBlocks calls"

fun added_Params :: "Query_call list \<Rightarrow> Param list" where
  "added_Params [] = []"
| "added_Params (WithParam params # calls) = params @ added_Params calls"
| "added_Params (_ # calls) = added_Params calls"

fun added_VarBlocks :: "Query_call list \<Rightarrow> VarBlock list" where
  "added_VarBlocks [] = []"
| "added_VarBlocks (WithVarBlocks vbs # calls) = vbs @ added_VarBlocks calls"
| "added_VarBlocks (_ # calls) = added_VarBlocks calls"

fun added_Fragments :: "Query_call list \<Rightarrow> Fragment list" where
  "added_Fragments [] = []"
| "added_Fragments (WithFragments fragments # calls) = fragments @ added_Fragments calls"
| "added_Fragments (_ # calls) = added_Fragments calls"

section \<open>Auxiliary facts\<close>

lemma append_each_eq: "append_each field xs = field @ xs"
  unfolding append_each_def by (induction xs arbitrary: field) simp_all

lemma foldl_snoc_map: "foldl (\<lambda>cs x. cs @ [f x]) cs xs = cs @ map f xs"
  by (induction xs arbitrary: cs) simp_all

lemma foldl_snoc_id: "foldl (\<lambda>cs x. cs @ [x]) cs xs = cs @ xs"
  by (induction xs arbitrary: cs) simp_all

lemma Join_Cons: "Join (x # xs) sep = x @ concat (map (\<lambda>y. sep @ y) xs)"
  by (induction xs arbitrary: x) simp_all

lemma Join_append_Cons:
  "Join (hs @ x # xs) sep = concat (map (\<lambda>h. h @ sep) hs) @ x @ concat (map (\<lambda>y. sep @ y) xs)"
proof (induction hs)
  case Nil
  show ?case by (simp add: Join_Cons)
next
  case (Cons h hs)
  have "Join (h # hs @ x # xs) sep = h @ sep @ Join (hs @ x # xs) sep"
    by (cases hs) simp_all
  with Cons show ?case by simp
qed

lemma Join_append:
  "xs \<noteq> [] \<Longrightarrow> Join (xs @ ys) sep = Join xs sep @ concat (map (\<lambda>y. sep @ y) ys)"
  by (cases xs) (simp_all add: Join_Cons)

lemma set_Join: "set (Join xs sep) \<subseteq> \<Union>(set ` set xs) \<union> set sep"
  by (induction xs sep rule: Join.induct) auto

subsection \<open>The renders as concatenations\<close>

lemma Attribute_String_eq:
  "Attribute_String a =
     Join ((if a_Alias a \<noteq> [] then [a_Alias a, '':''] else []) @ [a_Name a] @ a_Directives a) '' ''
     @ (if a_Attributes a = [] then []
        else '' {'' @ concat (map (\<lambda>c. '' '' @ Attribute_String c) (a_Attributes a)) @ '' }'')"
proof (cases a)
  case (Attribute al n ds as)
  then show ?thesis
    by (simp add: foldl_snoc_map foldl_snoc_id Join_Cons o_def)
qed

lemma QueryBlock_String_eq:
  "QueryBlock_String qb =
     qb_Name qb @ '' (func: '' @ Join (qb_Criteria qb) '', '' @ '')''
     @ concat (map (\<lambda>d. '' '' @ d) (qb_Directives qb))
     @ '' {''
     @ concat (map (\<lambda>a. '' '' @ Attribute_String a) (qb_Attributes qb))
     @ '' }''"
  by (simp add: QueryBlock_String_def foldl_snoc_map foldl_snoc_id Join_Cons Let_def o_def)

lemma Query_concatenate_eq:
  "Query_concatenate q =
     ((if q_Name q \<noteq> [] then [''query'', q_Name q] else [])
       @ (if q_Params q \<noteq> [] then [''('', Join (map Param_String (q_Params q)) '', '', '')''] else []))
     @ ''{'' # (map VarBlock_String (q_VarBlocks q) @ map QueryBlock_String (q_QueryBlocks q)
        @ [''}''] @ map Fragment_String (q_Fragments q))"
  by (simp add: Query_concatenate_def foldl_snoc_map Let_def)

lemma Fragment_String_eq:
  "Fragment_String f =
     ''fragment '' @ f_Name f @ '' {''
     @ concat (map (\<lambda>a. '' '' @ Attribute_String a) (f_Attributes f)) @ '' }''"
  by (simp add: Fragment_String_def foldl_snoc_map Join_Cons o_def)

lemma Query_String_eq:
  "Query_String q =
     concat (map (\<lambda>h. h @ '' '')
       ((if q_Name q \<noteq> [] then [''query'', q_Name q] else [])
        @ (if q_Params q \<noteq> [] then [''('', Join (map Param_String (q_Params q)) '', '', '')''] else [])))
     @ ''{''
     @ concat (map (\<lambda>vb. '' '' @ VarBlock_String vb) (q_VarBlocks q))
     @ concat (map (\<lambda>qb. '' '' @ QueryBlock_String qb) (q_QueryBlocks q))
     @ '' }''
     @ concat (map (\<lambda>f. '' '' @ Fragment_String f) (q_Fragments q))"
proof -
  have "Query_String q = Join (Query_concatenate q) '' ''"
    by (simp add: Query_String_def)
  also have "\<dots> =
     concat (map (\<lambda>h. h @ '' '')
       ((if q_Name q \<noteq> [] then [''query'', q_Name q] else [])
        @ (if q_Params q \<noteq> [] then [''('', Join (map Param_String (q_Params q)) '', '', '')''] else [])))
     @ ''{''
     @ concat (map (\<lambda>y. '' '' @ y) (map VarBlock_String (q_VarBlocks q) @ map QueryBlock_String (q_QueryBlocks q)
        @ [''}''] @ map Fragment_String (q_Fragments q)))"
    unfolding Query_concatenate_eq Join_append_Cons ..
  finally show ?thesis
    by (simp add: o_def)
qed

subsection \<open>Fields after a chain of builder calls\<close>

lemma QueryBlock_calls_fields:
  "qb_Name (foldl QueryBlock_do qb calls) = qb_Name qb
   \<and> qb_Criteria (foldl QueryBlock_do qb calls) = qb_Criteria qb @ added_Criteria calls
   \<and> qb_Directives (foldl QueryBlock_do qb calls) = qb_Directives qb @ added_Directives calls
   \<and> qb_Attributes (foldl QueryBlock_do qb calls) = qb_Attributes qb @ added_Attributes calls"
proof (induction calls arbitrary: qb)
  case Nil
  show ?case by simp
next
  case (Cons call calls)
  show ?case
    by (cases call)
      (simp_all add: Cons QueryBlock_WithCriteria_def QueryBlock_WithDirectives_def
        QueryBlock_WithAttributes_def append_each_eq)
qed

lemma Query_calls_fields:
  "q_Name (foldl Query_do q calls) = q_Name q
   \<and> q_Params (foldl Query_do q calls) = q_Params q @ added_Params calls
   \<and> q_QueryBlocks (foldl Query_do q calls) = q_QueryBlocks q @ added_QueryBlocks calls
   \<and> q_VarBlocks (foldl Query_do q calls) = q_VarBlocks q @ added_VarBlocks calls
   \<and> q_Fragments (foldl Query_do q calls) = q_Fragments q @ added_Fragments calls"
proof (induction calls arbitrary: q)
  case Nil
  show ?case by simp
next
  case (Cons call calls)
  show ?case
    by (cases call)
      (simp_all add: Cons Query_WithParam_def Query_WithVarBlocks_def Query_WithQueryBlocks_def
        Query_WithFragments_def append_each_eq)
qed

subsection \<open>Unfolding the scan\<close>

lemma PrettyPrint_loop_unfold:
  "pp_i s < length raw \<Longrightarrow> PrettyPrint_step raw s = Inr s' \<Longrightarrow>
   PrettyPrint_loop raw s = PrettyPrint_loop raw s'"
  by (subst PrettyPrint_loop.simps) simp

subsection \<open>The lookahead stays inside the text\<close>

text \<open>
  The compact render always ends with a space and the closing brace, so no \<open>}\<close>
  stands at the last position but one, the only place where \<open>raw[i+2]\<close> would be
  out of range. The one way \<open>PrettyPrint\<close> can fail is \<open>strings.Repeat\<close>.
\<close>

lemma Query_String_closing: "\<exists>p. Query_String q = p @ '' }''"
proof (cases "q_Fragments q" rule: rev_cases)
  case Nil
  show ?thesis
    by (subst Query_String_eq) (simp add: Nil)
next
  case (snoc fs f)
  have "\<exists>p. concat (map (\<lambda>f. '' '' @ Fragment_String f) (fs @ [f])) = p @ '' }''"
    by (simp add: Fragment_String_eq)
  then obtain p where "concat (map (\<lambda>f. '' '' @ Fragment_String f) (q_Fragments q)) = p @ '' }''"
    using snoc by auto
  then show ?thesis
    by (subst Query_String_eq) (simp del: append_assoc add: append_assoc [symmetric])
qed

lemma PrettyPrint_step_lookahead:
  assumes "raw = p @ '' }''" and "pp_i s < length raw"
  shows "PrettyPrint_step raw s \<noteq> Inl IndexOutOfRange"
proof -
  have "raw ! pp_i s \<noteq> CHR ''}''" if "\<not> pp_i s + 2 < length raw" and "int (pp_i s) < int (length raw) - 1"
  proof -
    from that assms have "pp_i s = length p" by simp
    with assms show ?thesis by (simp add: nth_append)
  qed
  then show ?thesis
    by (auto simp: PrettyPrint_step_def Repeat_def index_def Let_def split: if_splits sum.splits)
qed

lemma PrettyPrint_loop_lookahead:
  "raw = p @ '' }'' \<Longrightarrow> PrettyPrint_loop raw s \<noteq> Inl IndexOutOfRange"
proof (induction raw s rule: PrettyPrint_loop.induct)
  case (1 raw s)
  show ?case
  proof (cases "pp_i s < length raw")
    case False
    then show ?thesis by (subst PrettyPrint_loop.simps) simp
  next
    case True
    show ?thesis
    proof (cases "PrettyPrint_step raw s")
      case (Inl e)
      with True PrettyPrint_step_lookahead [OF "1.prems" True] show ?thesis
        by (subst PrettyPrint_loop.simps) simp
    next
      case (Inr s')
      with True "1.IH" [OF True Inr "1.prems"] show ?thesis
        by (subst PrettyPrint_loop.simps) simp
    qed
  qed
qed

lemma Query_PrettyPrint_lookahead: "Query_PrettyPrint q \<noteq> Inl IndexOutOfRange"
proof -
  obtain p where "Query_String q = p @ '' }''"
    using Query_String_closing by blast
  then show ?thesis
    unfolding Query_PrettyPrint_def Let_def by (rule PrettyPrint_loop_lookahead)
qed

lemma Query_PrettyPrint_outcomes:
  "Query_PrettyPrint q = Inl NegativeRepeat \<or> (\<exists>out. Query_PrettyPrint q = Inr out)"
proof (cases "Query_PrettyPrint q")
  case (Inl e)
  with Query_PrettyPrint_lookahead [of q] show ?thesis by (cases e) simp_all
next
  case (Inr out)
  then show ?thesis by simp
qed

subsection \<open>Characters of a joined text\<close>

lemma in_set_Join:
  "c \<notin> set sep \<Longrightarrow> (c \<in> set (Join xs sep)) = (\<exists>s \<in> set xs. c \<in> set s)"
  by (induction xs sep rule: Join.induct) auto

lemma Attribute_head_holds:
  assumes "c \<noteq> CHR '' ''" and "c \<noteq> CHR '':''"
  shows "(c \<in> set (Join ((if a_Alias a \<noteq> [] then [a_Alias a, '':''] else [])
            @ [a_Name a] @ a_Directives a) '' ''))
       = (\<exists>s \<in> set (a_Alias a # a_Name a # a_Directives a). c \<in> set s)"
proof -
  have sep: "c \<notin> set '' ''" using assms by simp
  show ?thesis
  proof (cases "a_Alias a = []")
    case True
    then show ?thesis by (simp add: in_set_Join [OF sep])
  next
    case False
    then show ?thesis using assms by (simp add: in_set_Join [OF sep])
  qed
qed

lemma Attribute_String_brace:
  assumes "c = CHR ''{'' \<or> c = CHR ''}''"
  shows "(c \<in> set (Attribute_String a)) =
     (a_Attributes a \<noteq> [] \<or> (\<exists>s \<in> set (a_Alias a # a_Name a # a_Directives a). c \<in> set s))"
proof -
  from assms have c: "c \<noteq> CHR '' ''" "c \<noteq> CHR '':''" by auto
  show ?thesis
  proof (cases "a_Attributes a = []")
    case True
    with Attribute_String_eq [of a]
    have "Attribute_String a =
        Join ((if a_Alias a \<noteq> [] then [a_Alias a, '':''] else [])
          @ [a_Name a] @ a_Directives a) '' ''"
      by simp
    then have "(c \<in> set (Attribute_String a)) =
        (c \<in> set (Join ((if a_Alias a \<noteq> [] then [a_Alias a, '':''] else [])
          @ [a_Name a] @ a_Directives a) '' ''))"
      by (simp only:)
    also have "\<dots> = (\<exists>s \<in> set (a_Alias a # a_Name a # a_Directives a). c \<in> set s)"
      by (rule Attribute_head_holds [OF c])
    finally show ?thesis
      using True by simp
  next
    case False
    have "c \<in> set (Attribute_String a)"
      using assms False by (subst Attribute_String_eq) auto
    with False show ?thesis by simp
  qed
qed

subsection \<open>Runs that leave the store unchanged\<close>

lemma unchanged_ret: "unchanged (ret x)"
  by (simp add: unchanged_def ret_def)

lemma unchanged_deref: "unchanged (deref objects p field)"
  by (simp add: unchanged_def deref_def split: option.split)

lemma unchanged_of_result: "unchanged (of_result r)"
  by (simp add: unchanged_def of_result_def split: sum.split)

lemma unchanged_bnd:
  assumes "unchanged m" and "\<And>x. unchanged (f x)"
  shows "unchanged (bnd m f)"
  unfolding unchanged_def
proof
  fix h
  from assms(1) have m: "snd (m h) = h" by (simp add: unchanged_def)
  show "snd (bnd m f h) = h"
  proof (cases "m h")
    case (Pair r h')
    with m have "h' = h" by simp
    with Pair assms(2) show ?thesis
      by (cases r) (simp_all add: bnd_def unchanged_def)
  qed
qed

lemma unchanged_for_range:
  assumes "\<And>acc x. unchanged (body acc x)"
  shows "unchanged (for_range xs acc body)"
  by (induction xs arbitrary: acc) (simp_all add: unchanged_ret unchanged_bnd assms)

lemma unchanged_if: "unchanged m \<Longrightarrow> unchanged n \<Longrightarrow> unchanged (if b then m else n)"
  by simp

lemmas unchanged_intros =
  unchanged_bnd unchanged_for_range unchanged_if unchanged_ret unchanged_deref unchanged_of_result

lemma unchanged_Attribute_String_h: "unchanged (Attribute_String_h fuel a)"
proof (induction fuel arbitrary: a)
  case 0
  show ?case by (simp add: unchanged_def)
next
  case (Suc fuel)
  show ?case
    unfolding Attribute_String_h.simps Let_def
    by (intro unchanged_intros Suc)
qed

lemma unchanged_Param_String_h: "unchanged (Param_String_h p)"
  unfolding Param_String_h_def Let_def by (intro unchanged_intros)

lemma unchanged_Fragment_String_h: "unchanged (Fragment_String_h fuel f)"
  unfolding Fragment_String_h_def Let_def by (intro unchanged_intros unchanged_Attribute_String_h)

lemma unchanged_VarBlock_String_h: "unchanged (VarBlock_String_h fuel vb)"
  unfolding VarBlock_String_h_def Let_def by (intro unchanged_intros unchanged_Attribute_String_h)

lemma unchanged_QueryBlock_String_h: "unchanged (QueryBlock_String_h fuel qb)"
  unfolding QueryBlock_String_h_def Let_def by (intro unchanged_intros unchanged_Attribute_String_h)

lemma unchanged_Query_concatenate_h: "unchanged (Query_concatenate_h fuel q)"
  unfolding Query_concatenate_h_def Let_def
  by (intro unchanged_intros unchanged_Param_String_h unchanged_Fragment_String_h
      unchanged_VarBlock_String_h unchanged_QueryBlock_String_h)

lemma unchanged_Query_String_h: "unchanged (Query_String_h fuel q)"
  unfolding Query_String_h_def by (intro unchanged_intros unchanged_Query_concatenate_h)

lemma unchanged_Query_PrettyPrint_h: "unchanged (Query_PrettyPrint_h fuel q)"
  unfolding Query_PrettyPrint_h_def by (intro unchanged_intros unchanged_Query_String_h)

lemma unchanged_call_String: "unchanged (call_String fuel query)"
  unfolding call_String_def by (intro unchanged_intros unchanged_Query_String_h)

lemma unchanged_call_PrettyPrint: "unchanged (call_PrettyPrint fuel query)"
  unfolding call_PrettyPrint_def by (intro unchanged_intros unchanged_Query_PrettyPrint_h)

subsection \<open>The renders on the store compute the renders of the tree\<close>

lemma bnd_Return: "m h = (Return x, h') \<Longrightarrow> bnd m f h = f x h'"
  by (simp add: bnd_def)

lemma bnd_assoc: "bnd (bnd m f) g = bnd m (\<lambda>x. bnd (f x) g)"
  by (rule ext) (simp add: bnd_def split: prod.split outcome.split)

lemma bnd_ret: "bnd (ret x) f h = f x h"
  by (simp add: bnd_def ret_def)

lemma bnd_deref: "objects h p = Some obj \<Longrightarrow> bnd (deref objects p field) f h = f (field obj) h"
  by (simp add: bnd_def deref_def)

lemma for_range_copy: "for_range xs cs (\<lambda>cs x. ret (cs @ [x])) h = (Return (cs @ xs), h)"
  by (induction xs arbitrary: cs) (simp_all add: bnd_ret, simp add: ret_def)

lemma bnd_for_range_copy: "bnd (for_range xs cs (\<lambda>cs x. ret (cs @ [x]))) f h = f (cs @ xs) h"
  by (rule bnd_Return) (rule for_range_copy)

lemma for_range_renders:
  assumes "those (map valof xs) = Some vs"
    and "\<And>x v. x \<in> set xs \<Longrightarrow> valof x = Some v \<Longrightarrow> render x h = (Return (shown v), h)"
  shows "for_range xs cs (\<lambda>cs x. bnd (render x) (\<lambda>s. ret (cs @ [s]))) h
           = (Return (cs @ map shown vs), h)"
  using assms
proof (induction xs arbitrary: cs vs)
  case Nil
  then show ?case by (simp add: ret_def)
next
  case (Cons x xs)
  let ?body = "\<lambda>cs x. bnd (render x) (\<lambda>s. ret (cs @ [s]))"
  from Cons.prems(1) obtain v vs' where v: "valof x = Some v"
    and vs': "those (map valof xs) = Some vs'" and vs: "vs = v # vs'"
    by (auto split: option.splits)
  have "render x h = (Return (shown v), h)"
    using Cons.prems(2) v by simp
  then have "bnd (render x) (\<lambda>s. ret (cs @ [s])) h = ret (cs @ [shown v]) h"
    by (rule bnd_Return)
  then have first: "?body cs x h = (Return (cs @ [shown v]), h)"
    by (simp add: ret_def)
  have rest: "for_range xs (cs @ [shown v]) ?body h = (Return ((cs @ [shown v]) @ map shown vs'), h)"
    using Cons.IH [OF vs'] Cons.prems(2) by simp
  have "for_range (x # xs) cs ?body h = bnd (?body cs x) (\<lambda>acc'. for_range xs acc' ?body) h"
    by simp
  also have "\<dots> = for_range xs (cs @ [shown v]) ?body h"
    using first by (rule bnd_Return)
  finally show ?case
    using rest vs by simp
qed

lemma bnd_for_range_renders:
  assumes "those (map valof xs) = Some vs"
    and "\<And>x v. x \<in> set xs \<Longrightarrow> valof x = Some v \<Longrightarrow> render x h = (Return (shown v), h)"
  shows "bnd (for_range xs cs (\<lambda>cs x. bnd (render x) (\<lambda>s. ret (cs @ [s])))) f h
           = f (cs @ map shown vs) h"
proof -
  have "for_range xs cs (\<lambda>cs x. bnd (render x) (\<lambda>s. ret (cs @ [s]))) h
      = (Return (cs @ map shown vs), h)"
  proof (rule for_range_renders [where valof = valof and shown = shown and render = render])
    show "those (map valof xs) = Some vs" by fact
    show "render x h = (Return (shown v), h)" if "x \<in> set xs" and "valof x = Some v" for x v
      using that by (rule assms(2))
  qed
  then show ?thesis by (rule bnd_Return)
qed

lemma those_map_Nil: "those (map valof xs) = Some vs \<Longrightarrow> (xs = []) = (vs = [])"
  by (cases xs) (auto split: option.splits)

lemma Attribute_String_h_refines:
  "Attribute_value fuel h a = Some v \<Longrightarrow> Attribute_String_h fuel a h = (Return (Attribute_String v), h)"
proof (induction fuel arbitrary: a v)
  case 0
  then show ?case by simp
next
  case (Suc fuel)
  from Suc.prems obtain obj as where obj: "Attribute_at h a = Some obj"
    and as: "those (map (Attribute_value fuel h) (Attribute_Attributes obj)) = Some as"
    and v: "v = Attribute (Attribute_Alias obj) (Attribute_Name obj) (Attribute_Directives obj) as"
    by (auto split: option.splits)
  have children: "bnd (for_range (Attribute_Attributes obj) cs
        (\<lambda>cs attr. bnd (Attribute_String_h fuel attr) (\<lambda>s. ret (cs @ [s])))) f h
      = f (cs @ map Attribute_String as) h" for cs and f :: "string list \<Rightarrow> string prog"
  proof (rule bnd_for_range_renders [where valof = "Attribute_value fuel h"
        and shown = Attribute_String and render = "Attribute_String_h fuel"])
    show "those (map (Attribute_value fuel h) (Attribute_Attributes obj)) = Some as" by fact
    show "Attribute_String_h fuel x h = (Return (Attribute_String v), h)"
      if "Attribute_value fuel h x = Some v" for x v
      using that by (rule Suc.IH)
  qed
  show ?case
    by (simp add: v Let_def bnd_assoc bnd_deref [of Attribute_at h a obj, OF obj] bnd_ret bnd_for_range_copy children
        those_map_Nil [OF as] foldl_snoc_map foldl_snoc_id ret_def)
qed


lemma attributes_rendered:
  assumes "those (map (Attribute_value fuel h) attrs) = Some as"
  shows "bnd (for_range attrs cs
        (\<lambda>cs attr. bnd (Attribute_String_h fuel attr) (\<lambda>s. ret (cs @ [s])))) f h
      = f (cs @ map Attribute_String as) h"
proof (rule bnd_for_range_renders [where valof = "Attribute_value fuel h"
      and shown = Attribute_String and render = "Attribute_String_h fuel"])
  show "those (map (Attribute_value fuel h) attrs) = Some as" by fact
  show "Attribute_String_h fuel x h = (Return (Attribute_String v), h)"
    if "Attribute_value fuel h x = Some v" for x v
    using that by (rule Attribute_String_h_refines)
qed

lemma Param_String_h_refines:
  assumes "Param_at h p = Some v"
  shows "Param_String_h p h = (Return (Param_String v), h)"
  by (simp add: Param_String_h_def Param_String_def Let_def
      bnd_deref [of Param_at h p v, OF assms] ret_def)

lemma Fragment_String_h_refines:
  assumes "Fragment_value fuel h f = Some v"
  shows "Fragment_String_h fuel f h = (Return (Fragment_String v), h)"
proof -
  from assms obtain obj as where obj: "Fragment_at h f = Some obj"
    and as: "those (map (Attribute_value fuel h) (Fragment_Attributes obj)) = Some as"
    and v: "v = \<lparr>f_Name = Fragment_Name obj, f_Attributes = as\<rparr>"
    by (auto simp: Fragment_value_def split: option.splits)
  show ?thesis
    by (simp add: v Fragment_String_h_def Fragment_String_def Let_def
        bnd_deref [of Fragment_at h f obj, OF obj] attributes_rendered [OF as]
        foldl_snoc_map ret_def)
qed

lemma VarBlock_String_h_refines:
  assumes "VarBlock_value fuel h vb = Some v"
  shows "VarBlock_String_h fuel vb h = (Return (VarBlock_String v), h)"
proof -
  from assms obtain obj as where obj: "VarBlock_at h vb = Some obj"
    and as: "those (map (Attribute_value fuel h) (VarBlock_Attributes obj)) = Some as"
    and v: "v = \<lparr>vb_Name = VarBlock_Name obj, vb_Criteria = VarBlock_Criteria obj,
                   vb_Attributes = as, vb_Directives = VarBlock_Directives obj\<rparr>"
    by (auto simp: VarBlock_value_def split: option.splits)
  show ?thesis
    by (simp add: v VarBlock_String_h_def VarBlock_String_def Let_def bnd_assoc
        bnd_deref [of VarBlock_at h vb obj, OF obj] bnd_ret bnd_for_range_copy
        attributes_rendered [OF as] foldl_snoc_map foldl_snoc_id ret_def)
qed

lemma QueryBlock_String_h_refines:
  assumes "QueryBlock_value fuel h qb = Some v"
  shows "QueryBlock_String_h fuel qb h = (Return (QueryBlock_String v), h)"
proof -
  from assms obtain obj as where obj: "QueryBlock_at h qb = Some obj"
    and as: "those (map (Attribute_value fuel h) (QueryBlock_Attributes obj)) = Some as"
    and v: "v = \<lparr>qb_Name = QueryBlock_Name obj, qb_Criteria = QueryBlock_Criteria obj,
                   qb_Directives = QueryBlock_Directives obj, qb_Attributes = as\<rparr>"
    by (auto simp: QueryBlock_value_def split: option.splits)
  show ?thesis
    by (simp add: v QueryBlock_String_h_def QueryBlock_String_def Let_def
        bnd_deref [of QueryBlock_at h qb obj, OF obj] bnd_for_range_copy
        attributes_rendered [OF as] foldl_snoc_map foldl_snoc_id ret_def)
qed

lemma Query_concatenate_h_refines:
  assumes "Query_value fuel h q = Some v"
  shows "Query_concatenate_h fuel q h = (Return (Query_concatenate v), h)"
proof -
  from assms obtain ps qbs vbs fs where ps: "those (map (Param_at h) (Query_Params q)) = Some ps"
    and qbs: "those (map (QueryBlock_value fuel h) (Query_QueryBlocks q)) = Some qbs"
    and vbs: "those (map (VarBlock_value fuel h) (Query_VarBlocks q)) = Some vbs"
    and fs: "those (map (Fragment_value fuel h) (Query_Fragments q)) = Some fs"
    and v: "v = \<lparr>q_Name = Query_Name q, q_Params = ps, q_QueryBlocks = qbs, q_VarBlocks = vbs,
                   q_Fragments = fs\<rparr>"
    by (auto simp: Query_value_def split: option.splits)
  have params: "bnd (for_range (Query_Params q) cs
        (\<lambda>paramComps param. bnd (Param_String_h param) (\<lambda>s. ret (paramComps @ [s])))) f h
      = f (cs @ map Param_String ps) h" for cs and f :: "string list \<Rightarrow> string list prog"
  proof (rule bnd_for_range_renders [where valof = "Param_at h"
        and shown = Param_String and render = Param_String_h])
    show "those (map (Param_at h) (Query_Params q)) = Some ps" by fact
    show "Param_String_h x h = (Return (Param_String v), h)" if "Param_at h x = Some v" for x v
      using that by (rule Param_String_h_refines)
  qed
  have var_blocks: "bnd (for_range (Query_VarBlocks q) cs
        (\<lambda>cs vBlock. bnd (VarBlock_String_h fuel vBlock) (\<lambda>s. ret (cs @ [s])))) f h
      = f (cs @ map VarBlock_String vbs) h" for cs and f :: "string list \<Rightarrow> string list prog"
  proof (rule bnd_for_range_renders [where valof = "VarBlock_value fuel h"
        and shown = VarBlock_String and render = "VarBlock_String_h fuel"])
    show "those (map (VarBlock_value fuel h) (Query_VarBlocks q)) = Some vbs" by fact
    show "VarBlock_String_h fuel x h = (Return (VarBlock_String v), h)"
      if "VarBlock_value fuel h x = Some v" for x v
      using that by (rule VarBlock_String_h_refines)
  qed
  have query_blocks: "bnd (for_range (Query_QueryBlocks q) cs
        (\<lambda>cs qBlock. bnd (QueryBlock_String_h fuel qBlock) (\<lambda>s. ret (cs @ [s])))) f h
      = f (cs @ map QueryBlock_String qbs) h" for cs and f :: "string list \<Rightarrow> string list prog"
  proof (rule bnd_for_range_renders [where valof = "QueryBlock_value fuel h"
        and shown = QueryBlock_String and render = "QueryBlock_String_h fuel"])
    show "those (map (QueryBlock_value fuel h) (Query_QueryBlocks q)) = Some qbs" by fact
    show "QueryBlock_String_h fuel x h = (Return (QueryBlock_String v), h)"
      if "QueryBlock_value fuel h x = Some v" for x v
      using that by (rule QueryBlock_String_h_refines)
  qed
  have fragments: "bnd (for_range (Query_Fragments q) cs
        (\<lambda>cs f. bnd (Fragment_String_h fuel f) (\<lambda>s. ret (cs @ [s])))) f h
      = f (cs @ map Fragment_String fs) h" for cs and f :: "string list \<Rightarrow> string list prog"
  proof (rule bnd_for_range_renders [where valof = "Fragment_value fuel h"
        and shown = Fragment_String and render = "Fragment_String_h fuel"])
    show "those (map (Fragment_value fuel h) (Query_Fragments q)) = Some fs" by fact
    show "Fragment_String_h fuel x h = (Return (Fragment_String v), h)"
      if "Fragment_value fuel h x = Some v" for x v
      using that by (rule Fragment_String_h_refines)
  qed
  show ?thesis
    by (simp add: v Query_concatenate_h_def Query_concatenate_def Let_def bnd_assoc bnd_ret
        params var_blocks query_blocks fragments those_map_Nil [OF ps] foldl_snoc_map ret_def)
qed

lemma Query_String_h_refines:
  assumes "Query_value fuel h q = Some v"
  shows "Query_String_h fuel q h = (Return (Query_String v), h)"
  by (simp add: Query_String_h_def Query_String_def
      bnd_Return [of "Query_concatenate_h fuel q" h "Query_concatenate v" h]
      Query_concatenate_h_refines [OF assms] ret_def)

lemma Query_PrettyPrint_h_refines:
  assumes "Query_value fuel h q = Some v"
  shows "Query_PrettyPrint_h fuel q h = of_result (Query_PrettyPrint v) h"
  by (simp add: Query_PrettyPrint_h_def Query_PrettyPrint_def
      bnd_Return [of "Query_String_h fuel q" h "Query_String v" h]
      Query_String_h_refines [OF assms])

section \<open>The documented examples\<close>

text \<open>
  C1. The query \<open>NewQuery("GetUserQuery", NewQueryBlock("getUser",
  "has(user)").WithAttributes(NewAttribute("name"), NewAttribute("age")))\<close> renders
  compactly to \<open>query GetUserQuery { getUser (func: has(user)) { name age } }\<close>: the
  query block's name and its \<open>(func: ...)\<close> clause are two components joined by a
  space, so the text is not the documented
  \<open>query GetUserQuery { getUser(func: has(user)) { name age } }\<close>.
\<close>

theorem C1_GetUserQuery_String:
  "Query_String (NewQuery ''GetUserQuery''
      (QueryBlock_WithAttributes (NewQueryBlock ''getUser'' ''has(user)'')
         [NewAttribute ''name'', NewAttribute ''age'']))
     = ''query GetUserQuery { getUser (func: has(user)) { name age } }''
   \<and> Query_String (NewQuery ''GetUserQuery''
      (QueryBlock_WithAttributes (NewQueryBlock ''getUser'' ''has(user)'')
         [NewAttribute ''name'', NewAttribute ''age'']))
     \<noteq> ''query GetUserQuery { getUser(func: has(user)) { name age } }''"
  by code_simp

text \<open>
  C2 (as amended). For the query with an empty name and the single query block named
  \<open>q\<close> with criteria \<open>true\<close> and no attributes, \<open>PrettyPrint\<close> returns five lines: the
  outer opening brace, the block header \<open>q (func: true) {\<close> indented by two spaces, a
  line holding the four spaces of the body's indent, the block's closing brace indented
  by two spaces and followed by two spaces, and the outer closing brace.
\<close>

theorem C2_PrettyPrint_single_block:
  "Query_PrettyPrint (NewQuery [] (NewQueryBlock ''q'' ''true''))
     = Inr ''{\<newline>  q (func: true) {\<newline>    \<newline>  }  \<newline>}''"
  by code_simp

text \<open>The two lines of the claim are not what \<open>PrettyPrint\<close> returns for that query.\<close>

theorem C2_two_lines_counterexample:
  "Query_PrettyPrint (NewQuery [] (NewQueryBlock ''q'' ''true''))
     \<noteq> Inr ''q (func: true) {\<newline>}''"
  by code_simp

text \<open>
  C3. With a name and one parameter the header is rendered as
  \<open>query GetUserQuery ( id: string = 123 ) {\<close>: the parentheses are components of their
  own, joined by spaces to the name and to the parameter list, not the documented
  \<open>query GetUserQuery(id: string = 123) {\<close>.
\<close>

theorem C3_header_with_param:
  "Query_String (Query_WithParam (NewQuery ''GetUserQuery'' (NewQueryBlock ''getUser'' ''has(user)''))
      [Param_WithDefault (NewParam ''id'' ''string'') ''123''])
     = ''query GetUserQuery ( id: string = 123 ) { getUser (func: has(user)) { } }''"
  by code_simp

text \<open>
  C4. \<open>PrettyPrint\<close> fails on a query whose name is the text \<open>}\<close>: the scan meets that
  brace at depth 0, decrements the depth to -1 and calls \<open>strings.Repeat\<close> with a
  negative count, which panics. \<open>String\<close> returns for the same query.
\<close>

theorem C4_PrettyPrint_panics:
  "Query_String (NewQuery ''}'' (NewQueryBlock ''q'' ''true'')) = ''query } { q (func: true) { } }''
   \<and> Query_PrettyPrint (NewQuery ''}'' (NewQueryBlock ''q'' ''true'')) = Inl NegativeRepeat"
  by code_simp

section \<open>The indenter's closing-brace transition\<close>

text \<open>
  C5 (as amended). In \<open>PrettyPrint\<close>, at a \<open>}\<close> with the character two positions
  ahead inside the text and a depth of at least 1 before the decrement: the newline, the
  indent of the decremented depth and the brace are emitted; then an extra newline is
  emitted if and only if the character two positions ahead is not \<open>}\<close>; then, in
  both cases, the indent of the decremented depth is emitted once more and the scan
  position advances by one extra character, so the scan continues two positions ahead.
\<close>

theorem C5_closing_brace_step:
  assumes "raw ! pp_i s = CHR ''}''" and "pp_i s + 2 < length raw" and "0 < pp_indent s"
  shows "PrettyPrint_step raw s =
           Inr \<lparr>pp_i = pp_i s + 2, pp_indent = pp_indent s - 1,
                pp_result = pp_result s @ [CHR 0x0A]
                  @ concat (replicate (nat (pp_indent s - 1)) ''  '') @ ''}''
                  @ (if raw ! (pp_i s + 2) \<noteq> CHR ''}'' then [CHR 0x0A] else [])
                  @ concat (replicate (nat (pp_indent s - 1)) ''  '')\<rparr>
         \<and> PrettyPrint_loop raw s =
           PrettyPrint_loop raw \<lparr>pp_i = pp_i s + 2, pp_indent = pp_indent s - 1,
                pp_result = pp_result s @ [CHR 0x0A]
                  @ concat (replicate (nat (pp_indent s - 1)) ''  '') @ ''}''
                  @ (if raw ! (pp_i s + 2) \<noteq> CHR ''}'' then [CHR 0x0A] else [])
                  @ concat (replicate (nat (pp_indent s - 1)) ''  '')\<rparr>"
proof -
  let ?s' = "\<lparr>pp_i = pp_i s + 2, pp_indent = pp_indent s - 1,
                pp_result = pp_result s @ [CHR 0x0A]
                  @ concat (replicate (nat (pp_indent s - 1)) ''  '') @ ''}''
                  @ (if raw ! (pp_i s + 2) \<noteq> CHR ''}'' then [CHR 0x0A] else [])
                  @ concat (replicate (nat (pp_indent s - 1)) ''  '')\<rparr>"
  have st: "PrettyPrint_step raw s = Inr ?s'"
    using assms by (simp add: PrettyPrint_step_def Repeat_def index_def step_def Let_def)
  moreover from assms(2) have "pp_i s < length raw" by simp
  ultimately show ?thesis using PrettyPrint_loop_unfold [of s raw ?s'] by simp
qed

text \<open>
  The transition at the inner closing brace of \<open>{ q (func: true) { } }\<close>, where the
  character two positions ahead is the outer closing brace.
\<close>

theorem C5_closing_brace_step_witness:
  "''{ q (func: true) { } }'' ! 19 = CHR ''}'' \<and> 19 + 2 < length ''{ q (func: true) { } }''
   \<and> (0::int) < 2 \<and> ''{ q (func: true) { } }'' ! (19 + 2) = CHR ''}''
   \<and> PrettyPrint_step ''{ q (func: true) { } }''
        \<lparr>pp_i = 19, pp_indent = 2, pp_result = ''{\<newline>  q (func: true) {\<newline>    ''\<rparr>
      = Inr \<lparr>pp_i = 21, pp_indent = 1,
             pp_result = ''{\<newline>  q (func: true) {\<newline>    \<newline>  }  ''\<rparr>"
  using C5_closing_brace_step [of "''{ q (func: true) { } }''"
      "\<lparr>pp_i = 19, pp_indent = 2, pp_result = ''{\<newline>  q (func: true) {\<newline>    ''\<rparr>"]
  by simp

text \<open>
  At that brace the claim's reading (nothing emitted after the brace, scan continuing
  with the next character) is not what the transition does.
\<close>

theorem C5_counterexample:
  "''{ q (func: true) { } }'' ! 19 = CHR ''}'' \<and> int 19 < int (length ''{ q (func: true) { } }'') - 1
   \<and> ''{ q (func: true) { } }'' ! (19 + 2) = CHR ''}''
   \<and> PrettyPrint_step ''{ q (func: true) { } }''
        \<lparr>pp_i = 19, pp_indent = 2, pp_result = ''{\<newline>  q (func: true) {\<newline>    ''\<rparr>
      \<noteq> Inr \<lparr>pp_i = 20, pp_indent = 1,
             pp_result = ''{\<newline>  q (func: true) {\<newline>    \<newline>  }''\<rparr>"
  by code_simp

section \<open>Structure of the compact render\<close>

text \<open>
  C6. The compact render of every query is the header tokens, the outer \<open>{\<close>, the
  renders of all variable blocks in list order, the renders of all query blocks in list
  order, the outer \<open>}\<close>, and after it the renders of all fragments in list order,
  each separated by one space; \<open>WithVarBlocks\<close>, \<open>WithQueryBlocks\<close> and
  \<open>WithFragments\<close> append their arguments, in order, at the end of their list; so
  for a query made by \<open>NewQuery\<close> and a chain of builder calls each of the three
  sequences is rendered in the order in which its elements were appended.
\<close>

theorem C6_String_order:
  "Query_String q =
     concat (map (\<lambda>h. h @ '' '')
       ((if q_Name q \<noteq> [] then [''query'', q_Name q] else [])
        @ (if q_Params q \<noteq> [] then [''('', Join (map Param_String (q_Params q)) '', '', '')''] else [])))
     @ ''{''
     @ concat (map (\<lambda>vb. '' '' @ VarBlock_String vb) (q_VarBlocks q))
     @ concat (map (\<lambda>qb. '' '' @ QueryBlock_String qb) (q_QueryBlocks q))
     @ '' }''
     @ concat (map (\<lambda>f. '' '' @ Fragment_String f) (q_Fragments q))
   \<and> q_VarBlocks (Query_WithVarBlocks q vbs) = q_VarBlocks q @ vbs
   \<and> q_QueryBlocks (Query_WithQueryBlocks q qbs) = q_QueryBlocks q @ qbs
   \<and> q_Fragments (Query_WithFragments q fragments) = q_Fragments q @ fragments
   \<and> Query_String (foldl Query_do (NewQuery name qb) calls) =
     concat (map (\<lambda>h. h @ '' '')
       ((if name \<noteq> [] then [''query'', name] else [])
        @ (if added_Params calls \<noteq> []
           then [''('', Join (map Param_String (added_Params calls)) '', '', '')''] else [])))
     @ ''{''
     @ concat (map (\<lambda>vb. '' '' @ VarBlock_String vb) (added_VarBlocks calls))
     @ concat (map (\<lambda>qb. '' '' @ QueryBlock_String qb) (qb # added_QueryBlocks calls))
     @ '' }''
     @ concat (map (\<lambda>f. '' '' @ Fragment_String f) (added_Fragments calls))"
proof -
  have appended: "q_VarBlocks (Query_WithVarBlocks q vbs) = q_VarBlocks q @ vbs
      \<and> q_QueryBlocks (Query_WithQueryBlocks q qbs) = q_QueryBlocks q @ qbs
      \<and> q_Fragments (Query_WithFragments q fragments) = q_Fragments q @ fragments"
    by (simp add: Query_WithVarBlocks_def Query_WithQueryBlocks_def Query_WithFragments_def
        append_each_eq)
  have built: "q_Name (foldl Query_do (NewQuery name qb) calls) = name
      \<and> q_Params (foldl Query_do (NewQuery name qb) calls) = added_Params calls
      \<and> q_VarBlocks (foldl Query_do (NewQuery name qb) calls) = added_VarBlocks calls
      \<and> q_QueryBlocks (foldl Query_do (NewQuery name qb) calls) = qb # added_QueryBlocks calls
      \<and> q_Fragments (foldl Query_do (NewQuery name qb) calls) = added_Fragments calls"
    by (simp add: Query_calls_fields NewQuery_def)
  have chain: "Query_String (foldl Query_do (NewQuery name qb) calls) =
     concat (map (\<lambda>h. h @ '' '')
       ((if name \<noteq> [] then [''query'', name] else [])
        @ (if added_Params calls \<noteq> []
           then [''('', Join (map Param_String (added_Params calls)) '', '', '')''] else [])))
     @ ''{''
     @ concat (map (\<lambda>vb. '' '' @ VarBlock_String vb) (added_VarBlocks calls))
     @ concat (map (\<lambda>qb. '' '' @ QueryBlock_String qb) (qb # added_QueryBlocks calls))
     @ '' }''
     @ concat (map (\<lambda>f. '' '' @ Fragment_String f) (added_Fragments calls))"
    using Query_String_eq [of "foldl Query_do (NewQuery name qb) calls"]
    by (simp only: built)
  from Query_String_eq [of q] appended chain show ?thesis
    by (intro conjI) (elim conjE, assumption)+
qed

text \<open>
  C7. A call of \<open>String\<close> or of \<open>PrettyPrint\<close> on a query leaves the whole store as
  it was: the query and every param, query block, variable block, fragment and
  attribute, owned or not. So a second call of either render, after either render,
  has the same outcome as the first (the same text, or the same failure). Where the
  store holds a tree of entities behind the query, that outcome is the render of the
  tree.
\<close>

theorem C7_render_stable:
  "snd (call_String fuel query h) = h
   \<and> snd (call_PrettyPrint fuel query h) = h
   \<and> fst (call_String fuel query (snd (call_String fuel query h))) = fst (call_String fuel query h)
   \<and> fst (call_PrettyPrint fuel query (snd (call_PrettyPrint fuel query h)))
       = fst (call_PrettyPrint fuel query h)
   \<and> fst (call_String fuel query (snd (call_PrettyPrint fuel query h))) = fst (call_String fuel query h)
   \<and> fst (call_PrettyPrint fuel query (snd (call_String fuel query h)))
       = fst (call_PrettyPrint fuel query h)
   \<and> (Query_at h query = Some q \<and> Query_value fuel h q = Some v \<longrightarrow>
        call_String fuel query h = (Return (Query_String v), h)
        \<and> call_PrettyPrint fuel query h = of_result (Query_PrettyPrint v) h)"
proof -
  have frame: "snd (call_String fuel query h) = h \<and> snd (call_PrettyPrint fuel query h) = h"
    using unchanged_call_String [of fuel query] unchanged_call_PrettyPrint [of fuel query]
    by (simp add: unchanged_def)
  have "call_String fuel query h = (Return (Query_String v), h)
      \<and> call_PrettyPrint fuel query h = of_result (Query_PrettyPrint v) h"
    if at: "Query_at h query = Some q" and tree: "Query_value fuel h q = Some v"
    using Query_String_h_refines [OF tree] Query_PrettyPrint_h_refines [OF tree]
    by (simp add: call_String_def call_PrettyPrint_def
        bnd_deref [of Query_at h query q, OF at])
  with frame show ?thesis by simp
qed

text \<open>The two renders of the README query in the example store.\<close>

theorem C7_render_stable_witness:
  "call_String 2 4 example_heap
     = (Return ''query GetUserQuery { getUser (func: has(user)) { name age } }'', example_heap)
   \<and> call_PrettyPrint 2 4 example_heap
     = (Return ''query GetUserQuery {\<newline>  getUser (func: has(user)) {\<newline>    name age \<newline>  }  \<newline>}'',
        example_heap)"
proof -
  have at: "Query_at example_heap 4 = Some \<lparr>Query_Name = ''GetUserQuery'', Query_Params = [],
      Query_QueryBlocks = [3], Query_VarBlocks = [], Query_Fragments = []\<rparr>"
    by (simp add: example_heap_def)
  have tree: "Query_value 2 example_heap \<lparr>Query_Name = ''GetUserQuery'', Query_Params = [],
      Query_QueryBlocks = [3], Query_VarBlocks = [], Query_Fragments = []\<rparr>
    = Some (NewQuery ''GetUserQuery''
        (QueryBlock_WithAttributes (NewQueryBlock ''getUser'' ''has(user)'')
           [NewAttribute ''name'', NewAttribute ''age'']))"
    by code_simp
  have compact: "Query_String (NewQuery ''GetUserQuery''
        (QueryBlock_WithAttributes (NewQueryBlock ''getUser'' ''has(user)'')
           [NewAttribute ''name'', NewAttribute ''age'']))
      = ''query GetUserQuery { getUser (func: has(user)) { name age } }''"
    by code_simp
  have pretty: "Query_PrettyPrint (NewQuery ''GetUserQuery''
        (QueryBlock_WithAttributes (NewQueryBlock ''getUser'' ''has(user)'')
           [NewAttribute ''name'', NewAttribute ''age'']))
      = Inr ''query GetUserQuery {\<newline>  getUser (func: has(user)) {\<newline>    name age \<newline>  }  \<newline>}''"
    by code_simp
  show ?thesis
    using C7_render_stable [of 2 4 example_heap _ "NewQuery ''GetUserQuery''
        (QueryBlock_WithAttributes (NewQueryBlock ''getUser'' ''has(user)'')
           [NewAttribute ''name'', NewAttribute ''age''])"] at tree
    by (simp add: compact pretty of_result_def)
qed

text \<open>
  A builder call on the same store does change it, and the next render with it; and
  on a store where an attribute is its own only child the render runs out of fuel,
  whatever the fuel, again leaving the store as it was.
\<close>

lemma builder_call_changes_store:
  "fst (Query_WithQueryBlocks_h 4 [5] example_heap) = Return 4
   \<and> map_option Query_QueryBlocks (Query_at example_heap 4) = Some [3]
   \<and> map_option Query_QueryBlocks (Query_at (snd (Query_WithQueryBlocks_h 4 [5] example_heap)) 4)
     = Some [3, 5]
   \<and> fst (call_String 2 4 (snd (Query_WithQueryBlocks_h 4 [5] example_heap)))
     = Return ''query GetUserQuery { getUser (func: has(user)) { name age } getPosts (func: has(post)) { } }''"
  by code_simp

lemma cyclic_store_runs_out:
  assumes "Attribute_at h a = Some obj" and "Attribute_Attributes obj = [a]"
  shows "Attribute_String_h fuel a h = (OutOfFuel, h)"
proof (induction fuel)
  case 0
  show ?case by simp
next
  case (Suc fuel)
  have child: "bnd (Attribute_String_h fuel a) f h = (OutOfFuel, h)"
    for f :: "string \<Rightarrow> string prog"
    by (simp add: bnd_def Suc)
  show ?case
    by (simp add: Let_def bnd_assoc bnd_deref [of Attribute_at h a obj, OF assms(1)] bnd_ret
        bnd_for_range_copy assms(2) child)
qed

text \<open>
  C8. The render of every query block is its name, one \<open>(func: ...)\<close> clause holding
  all criteria joined with \<open>, \<close> in list order, the directives, and the braces around
  the attributes; for a block made by \<open>NewQueryBlock(name, c)\<close> followed by any chain
  of builder calls, the clause holds \<open>c\<close> first and then the criteria of the
  \<open>WithCriteria\<close> calls in call order.
\<close>

theorem C8_criteria_joined:
  "QueryBlock_String qb =
     qb_Name qb @ '' (func: '' @ Join (qb_Criteria qb) '', '' @ '')''
     @ concat (map (\<lambda>d. '' '' @ d) (qb_Directives qb))
     @ '' {''
     @ concat (map (\<lambda>a. '' '' @ Attribute_String a) (qb_Attributes qb))
     @ '' }''
   \<and> QueryBlock_String (foldl QueryBlock_do (NewQueryBlock name c) calls) =
     name @ '' (func: '' @ c @ concat (map (\<lambda>x. '', '' @ x) (added_Criteria calls)) @ '')''
     @ concat (map (\<lambda>d. '' '' @ d) (added_Directives calls))
     @ '' {''
     @ concat (map (\<lambda>a. '' '' @ Attribute_String a) (added_Attributes calls))
     @ '' }''"
  by (simp add: QueryBlock_String_eq QueryBlock_calls_fields NewQueryBlock_def Join_Cons)

text \<open>
  C9 (as amended). The render of an attribute is its alias, name and directives joined
  by spaces, followed by the brace tokens around the rendered children exactly when it
  has a child. Alias, name and directives are passed through verbatim, so the render
  holds \<open>{\<close> (and likewise \<open>}\<close>) if and only if the attribute has at least one child
  or one of its alias, name and directives holds that character; in particular, when
  these hold no brace, the render holds the brace if and only if the attribute has at
  least one child.
\<close>

theorem C9_Attribute_braces:
  "Attribute_String a =
     Join ((if a_Alias a \<noteq> [] then [a_Alias a, '':''] else []) @ [a_Name a] @ a_Directives a) '' ''
     @ (if a_Attributes a = [] then []
        else '' {'' @ concat (map (\<lambda>c. '' '' @ Attribute_String c) (a_Attributes a)) @ '' }'')
   \<and> (CHR ''{'' \<in> set (Attribute_String a)) =
       (a_Attributes a \<noteq> [] \<or> (\<exists>s \<in> set (a_Alias a # a_Name a # a_Directives a). CHR ''{'' \<in> set s))
   \<and> (CHR ''}'' \<in> set (Attribute_String a)) =
       (a_Attributes a \<noteq> [] \<or> (\<exists>s \<in> set (a_Alias a # a_Name a # a_Directives a). CHR ''}'' \<in> set s))
   \<and> ((\<forall>s \<in> set (a_Alias a # a_Name a # a_Directives a). CHR ''{'' \<notin> set s \<and> CHR ''}'' \<notin> set s)
      \<longrightarrow> (CHR ''{'' \<in> set (Attribute_String a)) = (a_Attributes a \<noteq> [])
        \<and> (CHR ''}'' \<in> set (Attribute_String a)) = (a_Attributes a \<noteq> []))"
proof -
  have has_open: "(CHR ''{'' \<in> set (Attribute_String a)) =
       (a_Attributes a \<noteq> [] \<or> (\<exists>s \<in> set (a_Alias a # a_Name a # a_Directives a). CHR ''{'' \<in> set s))"
    by (rule Attribute_String_brace) simp
  have has_close: "(CHR ''}'' \<in> set (Attribute_String a)) =
       (a_Attributes a \<noteq> [] \<or> (\<exists>s \<in> set (a_Alias a # a_Name a # a_Directives a). CHR ''}'' \<in> set s))"
    by (rule Attribute_String_brace) simp
  from has_open has_close Attribute_String_eq [of a] show ?thesis
    by blast
qed

text \<open>An attribute with one child and a directive, and an attribute without children.\<close>

theorem C9_Attribute_braces_witness:
  "CHR ''{'' \<notin> set ''person'' \<and> CHR ''}'' \<notin> set ''person''
   \<and> CHR ''{'' \<notin> set ''@filter(has(name))'' \<and> CHR ''}'' \<notin> set ''@filter(has(name))''
   \<and> CHR ''{'' \<in> set (Attribute_String (Attribute [] ''person'' [''@filter(has(name))''] [NewAttribute ''name'']))
   \<and> CHR ''}'' \<in> set (Attribute_String (Attribute [] ''person'' [''@filter(has(name))''] [NewAttribute ''name'']))
   \<and> CHR ''{'' \<notin> set ''name'' \<and> CHR ''}'' \<notin> set ''name''
   \<and> CHR ''{'' \<notin> set (Attribute_String (NewAttribute ''name''))
   \<and> CHR ''}'' \<notin> set (Attribute_String (NewAttribute ''name''))"
  using C9_Attribute_braces [of "Attribute [] ''person'' [''@filter(has(name))''] [NewAttribute ''name'']"]
    C9_Attribute_braces [of "NewAttribute ''name''"]
  by (simp add: NewAttribute_def)

text \<open>
  An attribute without children whose name holds braces: both braces are in its render.
\<close>

theorem C9_childless_counterexample:
  "a_Attributes (NewAttribute ''a{b}'') = []
   \<and> Attribute_String (NewAttribute ''a{b}'') = ''a{b}''
   \<and> CHR ''{'' \<in> set (Attribute_String (NewAttribute ''a{b}''))
   \<and> CHR ''}'' \<in> set (Attribute_String (NewAttribute ''a{b}''))"
  by (simp add: NewAttribute_def)

section \<open>Nonemptiness under the builders\<close>

text \<open>
  C10. A query made by \<open>NewQuery(name, qb)\<close> followed by any chain of \<open>WithParam\<close>,
  \<open>WithVarBlocks\<close>, \<open>WithQueryBlocks\<close> and \<open>WithFragments\<close> calls holds \<open>qb\<close>
  followed by the added query blocks, so at least one; a query block made by
  \<open>NewQueryBlock(n, c)\<close> followed by any chain of \<open>WithCriteria\<close>,
  \<open>WithDirectives\<close> and \<open>WithAttributes\<close> calls holds \<open>c\<close> followed by the added
  criteria, so at least one; and every builder call, on these and on the other entities,
  leaves each list of its receiver as a prefix of the list afterwards, so no call removes
  an element.
\<close>

theorem C10_nonempty_preserved:
  "q_QueryBlocks (foldl Query_do (NewQuery name qb) calls) = qb # added_QueryBlocks calls
   \<and> q_QueryBlocks (foldl Query_do (NewQuery name qb) calls) \<noteq> []
   \<and> qb_Criteria (foldl QueryBlock_do (NewQueryBlock n c) bcalls) = c # added_Criteria bcalls
   \<and> qb_Criteria (foldl QueryBlock_do (NewQueryBlock n c) bcalls) \<noteq> []
   \<and> prefix (q_Params q) (q_Params (Query_do q call))
   \<and> prefix (q_VarBlocks q) (q_VarBlocks (Query_do q call))
   \<and> prefix (q_QueryBlocks q) (q_QueryBlocks (Query_do q call))
   \<and> prefix (q_Fragments q) (q_Fragments (Query_do q call))
   \<and> prefix (qb_Criteria b) (qb_Criteria (QueryBlock_do b bcall))
   \<and> prefix (qb_Directives b) (qb_Directives (QueryBlock_do b bcall))
   \<and> prefix (qb_Attributes b) (qb_Attributes (QueryBlock_do b bcall))
   \<and> prefix (vb_Directives vb) (vb_Directives (VarBlock_WithDirectives vb ds))
   \<and> vb_Attributes (VarBlock_WithDirectives vb ds) = vb_Attributes vb
   \<and> prefix (vb_Attributes vb) (vb_Attributes (VarBlock_WithAttributes vb as))
   \<and> vb_Directives (VarBlock_WithAttributes vb as) = vb_Directives vb
   \<and> vb_Directives (VarBlock_WithName vb vn) = vb_Directives vb
   \<and> vb_Attributes (VarBlock_WithName vb vn) = vb_Attributes vb
   \<and> prefix (f_Attributes f) (f_Attributes (Fragment_WithAttributes f as))
   \<and> prefix (a_Directives a) (a_Directives (Attribute_WithDirectives a ds))
   \<and> a_Attributes (Attribute_WithDirectives a ds) = a_Attributes a
   \<and> prefix (a_Attributes a) (a_Attributes (Attribute_WithAttributes a as))
   \<and> a_Directives (Attribute_WithAttributes a as) = a_Directives a"
proof -
  have built: "q_QueryBlocks (foldl Query_do (NewQuery name qb) calls) = qb # added_QueryBlocks calls"
    by (simp add: Query_calls_fields NewQuery_def)
  have built_block: "qb_Criteria (foldl QueryBlock_do (NewQueryBlock n c) bcalls) = c # added_Criteria bcalls"
    by (simp add: QueryBlock_calls_fields NewQueryBlock_def)
  have query_call: "prefix (q_Params q) (q_Params (Query_do q call))
      \<and> prefix (q_VarBlocks q) (q_VarBlocks (Query_do q call))
      \<and> prefix (q_QueryBlocks q) (q_QueryBlocks (Query_do q call))
      \<and> prefix (q_Fragments q) (q_Fragments (Query_do q call))"
    by (cases call)
      (simp_all add: Query_WithParam_def Query_WithVarBlocks_def Query_WithQueryBlocks_def
        Query_WithFragments_def append_each_eq)
  have block_call: "prefix (qb_Criteria b) (qb_Criteria (QueryBlock_do b bcall))
      \<and> prefix (qb_Directives b) (qb_Directives (QueryBlock_do b bcall))
      \<and> prefix (qb_Attributes b) (qb_Attributes (QueryBlock_do b bcall))"
    by (cases bcall)
      (simp_all add: QueryBlock_WithCriteria_def QueryBlock_WithDirectives_def
        QueryBlock_WithAttributes_def append_each_eq)
  have var_block: "prefix (vb_Directives vb) (vb_Directives (VarBlock_WithDirectives vb ds))
      \<and> vb_Attributes (VarBlock_WithDirectives vb ds) = vb_Attributes vb
      \<and> prefix (vb_Attributes vb) (vb_Attributes (VarBlock_WithAttributes vb as))
      \<and> vb_Directives (VarBlock_WithAttributes vb as) = vb_Directives vb
      \<and> vb_Directives (VarBlock_WithName vb vn) = vb_Directives vb
      \<and> vb_Attributes (VarBlock_WithName vb vn) = vb_Attributes vb"
    by (simp add: VarBlock_WithDirectives_def VarBlock_WithAttributes_def VarBlock_WithName_def
        append_each_eq)
  have fragment: "prefix (f_Attributes f) (f_Attributes (Fragment_WithAttributes f as))"
    by (simp add: Fragment_WithAttributes_def append_each_eq)
  have attribute: "prefix (a_Directives a) (a_Directives (Attribute_WithDirectives a ds))
      \<and> a_Attributes (Attribute_WithDirectives a ds) = a_Attributes a
      \<and> prefix (a_Attributes a) (a_Attributes (Attribute_WithAttributes a as))
      \<and> a_Directives (Attribute_WithAttributes a as) = a_Directives a"
    by (cases a) (simp add: append_each_eq)
  from built built_block query_call block_call var_block fragment attribute
  show ?thesis by simp
qed

end
